theory Spec2Isabelle
  imports Main "HOL-Library.Sublist"
begin

section \<open>snow-docs: the search command of \<^verbatim>\<open>src/snow_docs/app.py\<close>\<close>

text \<open>
  The development embeds the search command: the extraction loop over the anchors of the
  result page, the filter by link type, the page display, the prompt parser
  \<^verbatim>\<open>_parse_prompt\<close> and the interaction loop of \<^verbatim>\<open>search\<close>.

  Python's unbounded integers are \<^typ>\<open>int\<close>. A Python string is a \<^typ>\<open>string\<close>
  whose characters are read as the code points 0 to 255; the library functions
  \<^verbatim>\<open>str.lower\<close> and \<^verbatim>\<open>int\<close> are modelled on that range. What the program
  reads from the outside is a parameter: the anchors found in the response, and the list
  of answers that \<^verbatim>\<open>Prompt.ask\<close> returns, one for each round of the loop.
\<close>

subsection \<open>Library functions of Python\<close>

text \<open>\<^verbatim>\<open>str.lower\<close>: the upper-case letters below code point 256 are A to Z and
  0xC0 to 0xDE without the multiplication sign 0xD7; each maps to the code point 32 above.\<close>

definition lower_char :: "char \<Rightarrow> char" where
  "lower_char c =
     (let n = (of_char c :: nat)
      in if (65 \<le> n \<and> n \<le> 90) \<or> (192 \<le> n \<and> n \<le> 222 \<and> n \<noteq> 215)
         then char_of (n + 32) else c)"

definition lower :: "string \<Rightarrow> string" where
  "lower s = map lower_char s"

text \<open>\<^verbatim>\<open>int(s)\<close> in base 10: white space, an optional sign, decimal digits with
  single underscores between them, white space. Everything else raises
  \<^verbatim>\<open>ValueError\<close>, which is \<^const>\<open>None\<close> here; so does a literal of more than
  4300 digits, the default limit of the interpreter.\<close>

definition is_space :: "char \<Rightarrow> bool" where
  "is_space c =
     (let n = (of_char c :: nat)
      in (9 \<le> n \<and> n \<le> 13) \<or> n = 32 \<or> n = 133 \<or> n = 160)"

definition is_digit :: "char \<Rightarrow> bool" where
  "is_digit c = (let n = (of_char c :: nat) in 48 \<le> n \<and> n \<le> 57)"

definition digit_val :: "char \<Rightarrow> int" where
  "digit_val c = int (of_char c) - 48"

definition int_max_str_digits :: nat where
  "int_max_str_digits = 4300"

fun no_double_underscore :: "string \<Rightarrow> bool" where
  "no_double_underscore (a # b # cs) =
     (\<not> (a = CHR ''_'' \<and> b = CHR ''_'') \<and> no_double_underscore (b # cs))"
| "no_double_underscore cs = True"

definition digits_value :: "string \<Rightarrow> int" where
  "digits_value ds = foldl (\<lambda>a c. 10 * a + digit_val c) 0 ds"

definition int_literal :: "string \<Rightarrow> int option" where
  "int_literal s =
     (let tok = takeWhile (\<lambda>c. is_digit c \<or> c = CHR ''_'') s;
          rest = dropWhile (\<lambda>c. is_digit c \<or> c = CHR ''_'') s;
          ds = filter is_digit tok
      in case tok of
           [] \<Rightarrow> None
         | c # cs \<Rightarrow>
             if c = CHR ''_'' \<or> last tok = CHR ''_'' \<or> \<not> no_double_underscore tok
                \<or> \<not> list_all is_space rest \<or> int_max_str_digits < length ds
             then None
             else Some (digits_value ds))"

definition py_int :: "string \<Rightarrow> int option" where
  "py_int s =
     (case dropWhile is_space s of
        [] \<Rightarrow> None
      | c # cs \<Rightarrow>
          if c = CHR ''+'' then int_literal cs
          else if c = CHR ''-'' then map_option uminus (int_literal cs)
          else int_literal (c # cs))"

text \<open>\<^verbatim>\<open>str(i)\<close> for an integer, as the f-strings of the display format it.\<close>

function str_nat :: "nat \<Rightarrow> string" where
  "str_nat n =
     (if n < 10 then [char_of (48 + n)]
      else str_nat (n div 10) @ [char_of (48 + n mod 10)])"
  by pat_completeness auto
termination
  by (relation "measure id") auto

definition str_int :: "int \<Rightarrow> string" where
  "str_int i = (if i < 0 then CHR ''-'' # str_nat (nat (- i)) else str_nat (nat i))"

text \<open>Indexing and slicing of a list: a negative index counts from the end, an index
  out of range raises \<^verbatim>\<open>IndexError\<close>, and a slice clamps its bounds.\<close>

datatype py_exn = ValueError | IndexError

definition py_index :: "'a list \<Rightarrow> int \<Rightarrow> py_exn + 'a" where
  "py_index xs i =
     (if i < - int (length xs) \<or> int (length xs) \<le> i then Inl IndexError
      else Inr (xs ! nat (if i < 0 then i + int (length xs) else i)))"

definition py_slice :: "'a list \<Rightarrow> int \<Rightarrow> int \<Rightarrow> 'a list" where
  "py_slice xs a b =
     (let n = int (length xs);
          lo = (if a < 0 then max (a + n) 0 else min a n);
          hi = (if b < 0 then max (b + n) 0 else min b n)
      in take (nat (hi - lo)) (drop (nat lo) xs))"

subsection \<open>Data model\<close>

text \<open>The two enumerations, with the names and values the source gives their members.\<close>

datatype LinkType = doc | knowledge_base

datatype LinkTypeOptions = opt_doc | opt_knowledge_base | both

fun LinkType_name :: "LinkType \<Rightarrow> string" where
  "LinkType_name doc = ''doc''"
| "LinkType_name knowledge_base = ''knowledge_base''"

fun LinkType_value :: "LinkType \<Rightarrow> string" where
  "LinkType_value doc = ''Documentation''"
| "LinkType_value knowledge_base = ''Knowledge Base''"

fun LinkTypeOptions_name :: "LinkTypeOptions \<Rightarrow> string" where
  "LinkTypeOptions_name opt_doc = ''doc''"
| "LinkTypeOptions_name opt_knowledge_base = ''knowledge_base''"
| "LinkTypeOptions_name both = ''both''"

text \<open>The call \<^verbatim>\<open>LinkType(s)\<close> looks a member up by value and raises
  \<^verbatim>\<open>ValueError\<close> when there is none.\<close>

definition LinkType_of_value :: "string \<Rightarrow> py_exn + LinkType" where
  "LinkType_of_value s =
     (if s = ''Documentation'' then Inr doc
      else if s = ''Knowledge Base'' then Inr knowledge_base
      else Inl ValueError)"

text \<open>The class \<^verbatim>\<open>Link\<close>; its field \<^verbatim>\<open>text\<close> is \<open>link_text\<close> here.\<close>

record Link =
  link_text :: string
  link :: string
  link_type :: LinkType

text \<open>The class \<^verbatim>\<open>PromptResult\<close>, with the defaults of its fields.\<close>

record PromptResult =
  limits :: "int \<times> int"
  num :: int
  reason :: "string option"
  cancel :: bool

definition PromptResult_default :: "int \<times> int \<Rightarrow> PromptResult" where
  "PromptResult_default lim = \<lparr>limits = lim, num = 0, reason = None, cancel = False\<rparr>"

subsection \<open>The prompt parser\<close>

text \<open>\<^verbatim>\<open>_parse_prompt(limits, page_size, result_len)\<close>; the last argument is the
  string that \<^verbatim>\<open>Prompt.ask\<close> returned.\<close>

definition parse_prompt :: "int \<times> int \<Rightarrow> int \<Rightarrow> int \<Rightarrow> string \<Rightarrow> PromptResult" where
  "parse_prompt lim page_size result_len answer =
     (let prompt = lower answer
      in if prompt = ''cancel'' then (PromptResult_default lim)\<lparr>cancel := True\<rparr>
         else if prompt = ''more'' then
           (if snd lim + page_size > result_len
            then (PromptResult_default lim)\<lparr>reason := Some ''this is the last page''\<rparr>
            else PromptResult_default (fst lim + page_size, snd lim + page_size))
         else if prompt = ''back'' then
           (if fst lim = 0
            then (PromptResult_default lim)\<lparr>reason := Some ''cannot go back''\<rparr>
            else PromptResult_default (fst lim - page_size, snd lim - page_size))
         else
           (case py_int prompt of
              None \<Rightarrow> (PromptResult_default lim)\<lparr>reason := Some (''unkown command '' @ prompt)\<rparr>
            | Some n \<Rightarrow>
                if n < fst lim \<or> n > snd lim \<or> n > result_len
                then (PromptResult_default lim)\<lparr>reason := Some ''please specify the correct number''\<rparr>
                else (PromptResult_default lim)\<lparr>num := n - 1\<rparr>))"

subsection \<open>Output and results of the command\<close>

text \<open>What the command does to the outside is a list of events: a line handed to
  \<^verbatim>\<open>rich.print\<close> (with its markup), or a URL handed to \<^verbatim>\<open>typer.launch\<close>.
  An event records the call and its argument. How rich renders the markup of a line is
  not part of the model; rich raises \<^verbatim>\<open>MarkupError\<close> on a line with a closing
  tag that nothing opened, and no property below depends on a line being rendered.\<close>

datatype event = Print string | Launch string

text \<open>The object \<^verbatim>\<open>typer.Exit(code)\<close>; the code is 0 when none is given.\<close>

datatype Exit = Exit int

text \<open>How a run stands after the answers it was given: the loop waits for the next
  answer with a window, or the function returned an \<^verbatim>\<open>Exit\<close> object, or an
  exception left it.\<close>

datatype outcome = Awaiting "int \<times> int" | Returned Exit | Raised py_exn

subsection \<open>The page display\<close>

text \<open>\<^verbatim>\<open>_display_page(limits, search_results)\<close>.\<close>

definition display_page :: "int \<times> int \<Rightarrow> Link list \<Rightarrow> event list" where
  "display_page lim search_results =
     (let len = int (length search_results)
      in map (\<lambda>(i, li).
                Print (str_int (int i + fst lim + 1) @ ''. '' @ link_text li @ '' -> [green]''
                       @ LinkType_value (link_type li) @ ''[/green]''))
             (enumerate 0 (py_slice search_results (fst lim) (snd lim)))
         @ [Print (str_int (fst lim) @ ''-''
                   @ str_int (if snd lim \<le> len then snd lim else len)
                   @ '' out of '' @ str_int len),
            Print []]
         @ (if snd lim < len then [Print ''type `more` to see more results''] else [])
         @ (if fst lim \<noteq> 0 then [Print ''type `back` to see previous page''] else [])
         @ [Print ''type `cancel` to [red]cancel''])"

subsection \<open>The interaction loop\<close>

text \<open>The end of \<^verbatim>\<open>search\<close>, after the loop: \<^verbatim>\<open>links[result.num]\<close> is opened.\<close>

definition open_link :: "Link list \<Rightarrow> int \<Rightarrow> event list \<times> outcome" where
  "open_link links n =
     (case py_index links n of
        Inl e \<Rightarrow> ([], Raised e)
      | Inr l \<Rightarrow> ([Launch (link l), Print ''[green]Opened[/green]''], Returned (Exit 0)))"

definition emit :: "event list \<Rightarrow> event list \<times> outcome \<Rightarrow> event list \<times> outcome" where
  "emit es r = (es @ fst r, snd r)"

text \<open>The \<^verbatim>\<open>while True\<close> loop of \<^verbatim>\<open>search\<close>, one round for each answer. When
  the answers are used up the page is on display and the prompt waits.\<close>

fun search_loop :: "int \<times> int \<Rightarrow> int \<Rightarrow> Link list \<Rightarrow> string list \<Rightarrow> event list \<times> outcome" where
  "search_loop lim page_size links [] = (display_page lim links, Awaiting lim)"
| "search_loop lim page_size links (answer # answers) =
     emit (display_page lim links)
       (let result = parse_prompt lim page_size (int (length links)) answer
        in if cancel result then ([Print ''[red]Canceled''], Returned (Exit 0))
           else if limits result \<noteq> lim then search_loop (limits result) page_size links answers
           else (case reason result of
                   None \<Rightarrow> open_link links (num result)
                 | Some r \<Rightarrow> emit [Print r] (search_loop lim page_size links answers)))"

subsection \<open>Extraction and filter\<close>

text \<open>An anchor of the result page, as the extraction loop reads it: the text of its
  \<^verbatim>\<open>span\<close> (\<^const>\<open>None\<close> when it has no span), its \<^verbatim>\<open>href\<close> (\<^const>\<open>None\<close>
  when the attribute is not a string), and the text of its link type \<^verbatim>\<open>div\<close>
  (\<^const>\<open>None\<close> when it has no such div).\<close>

record anchor =
  span_text :: "string option"
  href :: "string option"
  type_div_text :: "string option"

text \<open>The \<^verbatim>\<open>for\<close> loop of \<^verbatim>\<open>search\<close> over \<^verbatim>\<open>links_html\<close>; \<open>links\<close> is the
  list built so far. The loop ends the function early (\<^const>\<open>Inl\<close>) or leaves the
  complete list (\<^const>\<open>Inr\<close>).\<close>

fun extract_links ::
  "LinkTypeOptions \<Rightarrow> anchor list \<Rightarrow> Link list \<Rightarrow> (event list \<times> outcome) + Link list" where
  "extract_links filter_opt [] links = Inr links"
| "extract_links filter_opt (a # links_html) links =
     (case span_text a of
        None \<Rightarrow> Inl ([Print ''[red bold]ERROR[/red bold]''], Returned (Exit 1))
      | Some text_a \<Rightarrow>
          (case href a of
             None \<Rightarrow> Inl ([Print ''[red bold]ERROR[/red bold]''], Returned (Exit 1))
           | Some href_a \<Rightarrow>
               (case type_div_text a of
                  None \<Rightarrow> Inl ([Print ''[red bold]ERROR[/red bold]''], Returned (Exit 1))
                | Some type_text \<Rightarrow>
                    (case LinkType_of_value type_text of
                       Inl e \<Rightarrow> Inl ([], Raised e)
                     | Inr type_a \<Rightarrow>
                         if filter_opt \<noteq> both
                            \<and> LinkType_name type_a \<noteq> LinkTypeOptions_name filter_opt
                         then extract_links filter_opt links_html links
                         else extract_links filter_opt links_html
                                (links @ [\<lparr>link_text = text_a, link = href_a,
                                           link_type = type_a\<rparr>])))))"

subsection \<open>The command\<close>

text \<open>\<^verbatim>\<open>search\<close>, from the anchors found in the response on: the filter option, the
  page size, the anchors, and the answers given at the prompt.\<close>

definition search ::
  "LinkTypeOptions \<Rightarrow> int \<Rightarrow> anchor list \<Rightarrow> string list \<Rightarrow> event list \<times> outcome" where
  "search filter_opt page_size links_html answers =
     emit [Print ''[bold blue]Choose the topic[/bold blue]'']
       (case extract_links filter_opt links_html [] of
          Inl r \<Rightarrow> r
        | Inr links \<Rightarrow> search_loop (0, page_size) page_size links answers)"

text \<open>The exit code of the process. typer ends the process with the code of an
  \<^verbatim>\<open>Exit\<close> that the command raises, with code 1 when another exception leaves the
  command, and with code 0 when the command returns, whatever value it returns.
  \<^verbatim>\<open>search\<close> raises no \<^verbatim>\<open>Exit\<close>: it hands each of its exit objects back
  with \<^verbatim>\<open>return\<close>. While the prompt waits the process has not ended.\<close>

fun process_exit_code :: "outcome \<Rightarrow> int option" where
  "process_exit_code (Awaiting lim) = None"
| "process_exit_code (Returned e) = Some 0"
| "process_exit_code (Raised e) = Some 1"

subsection \<open>Data for stating and evaluating the properties\<close>

text \<open>The anchor from which the extraction loop reads a given link: a span with the
  link's text, an \<^verbatim>\<open>href\<close> with its URL, and a div with the value of its type.\<close>

definition anchor_of :: "Link \<Rightarrow> anchor" where
  "anchor_of l =
     \<lparr>span_text = Some (link_text l), href = Some (link l),
      type_div_text = Some (LinkType_value (link_type l))\<rparr>"

text \<open>A result list of \<open>n\<close> links, numbered from 0, with the two link types in turn.\<close>

definition sample_link :: "nat \<Rightarrow> Link" where
  "sample_link i =
     \<lparr>link_text = ''topic '' @ str_nat i, link = ''/doc/'' @ str_nat i,
      link_type = (if even i then doc else knowledge_base)\<rparr>"

definition sample_links :: "nat \<Rightarrow> Link list" where
  "sample_links n = map sample_link [0..<n]"

section \<open>Properties\<close>

subsection \<open>Lower-casing and the integer parse\<close>

lemma lower_cancel: "lower ''cancel'' = ''cancel''"
  by code_simp

lemma lower_more: "lower ''more'' = ''more''"
  by code_simp

lemma lower_back: "lower ''back'' = ''back''"
  by code_simp

lemma lower_zero: "lower ''0'' = ''0''"
  by code_simp

lemma py_int_zero: "py_int ''0'' = Some 0"
  by code_simp

lemma of_char_lower_char:
  "(of_char (lower_char c) :: nat) =
     (if (65 \<le> (of_char c :: nat) \<and> (of_char c :: nat) \<le> 90)
         \<or> (192 \<le> (of_char c :: nat) \<and> (of_char c :: nat) \<le> 222 \<and> (of_char c :: nat) \<noteq> 215)
      then of_char c + 32 else of_char c)"
  by (auto simp add: lower_char_def Let_def)

lemma char_eq_code: "(c = d) = ((of_char c :: nat) = of_char d)"
  by simp

lemma is_space_lower_char: "is_space (lower_char c) = is_space c"
  by (auto simp add: is_space_def Let_def of_char_lower_char)

lemma is_digit_lower_char: "is_digit (lower_char c) = is_digit c"
  by (auto simp add: is_digit_def Let_def of_char_lower_char)

lemma lower_char_digit: "is_digit c \<Longrightarrow> lower_char c = c"
  by (auto simp add: is_digit_def lower_char_def Let_def)

lemma lower_char_underscore: "(lower_char c = CHR ''_'') = (c = CHR ''_'')"
  unfolding char_eq_code [of _ "CHR ''_''"] by (auto simp add: of_char_lower_char)

lemma lower_char_plus: "(lower_char c = CHR ''+'') = (c = CHR ''+'')"
  unfolding char_eq_code [of _ "CHR ''+''"] by (auto simp add: of_char_lower_char)

lemma lower_char_minus: "(lower_char c = CHR ''-'') = (c = CHR ''-'')"
  unfolding char_eq_code [of _ "CHR ''-''"] by (auto simp add: of_char_lower_char)

lemma lower_idem: "lower (lower s) = lower s"
proof -
  have "lower_char (lower_char c) = lower_char c" for c
    unfolding char_eq_code [of "lower_char (lower_char c)"] by (auto simp add: of_char_lower_char)
  then show ?thesis
    by (simp add: lower_def)
qed

lemma token_char_lower:
  "(\<lambda>c. is_digit c \<or> c = CHR ''_'') \<circ> lower_char = (\<lambda>c. is_digit c \<or> c = CHR ''_'')"
  by (simp add: fun_eq_iff is_digit_lower_char lower_char_underscore)

lemma is_space_comp_lower: "is_space \<circ> lower_char = is_space"
  by (simp add: fun_eq_iff is_space_lower_char)

lemma filter_digits_lower: "filter is_digit (map lower_char s) = filter is_digit s"
  by (induction s) (simp_all add: is_digit_lower_char lower_char_digit)

lemma no_double_underscore_lower:
  "no_double_underscore (map lower_char s) = no_double_underscore s"
  by (induction s rule: no_double_underscore.induct) (simp_all add: lower_char_underscore)

lemma list_all_space_lower: "list_all is_space (map lower_char s) = list_all is_space s"
  by (induction s) (simp_all add: is_space_lower_char)

text \<open>The letters that \<^const>\<open>lower\<close> changes are neither digits, signs, underscores nor
  white space, so the integer parse of the lower-cased answer is that of the answer.\<close>

lemma int_literal_map_lower: "int_literal (map lower_char s) = int_literal s"
proof -
  let ?P = "\<lambda>c. is_digit c \<or> c = CHR ''_''"
  have tw: "takeWhile ?P (map lower_char s) = map lower_char (takeWhile ?P s)"
    by (simp add: takeWhile_map token_char_lower)
  have dw: "dropWhile ?P (map lower_char s) = map lower_char (dropWhile ?P s)"
    by (simp add: dropWhile_map token_char_lower)
  have core:
    "(case map lower_char tok of [] \<Rightarrow> None
      | c # cs \<Rightarrow>
          if c = CHR ''_'' \<or> last (map lower_char tok) = CHR ''_''
             \<or> \<not> no_double_underscore (map lower_char tok)
             \<or> \<not> list_all is_space (map lower_char rest)
             \<or> int_max_str_digits < length (filter is_digit (map lower_char tok))
          then None
          else Some (digits_value (filter is_digit (map lower_char tok)))) =
     (case tok of [] \<Rightarrow> None
      | c # cs \<Rightarrow>
          if c = CHR ''_'' \<or> last tok = CHR ''_'' \<or> \<not> no_double_underscore tok
             \<or> \<not> list_all is_space rest \<or> int_max_str_digits < length (filter is_digit tok)
          then None
          else Some (digits_value (filter is_digit tok)))" for tok rest
  proof (cases "tok = []")
    case True
    then show ?thesis by simp
  next
    case False
    then show ?thesis
      by (simp add: list.case_eq_if hd_map last_map filter_digits_lower
          no_double_underscore_lower list_all_space_lower lower_char_underscore)
  qed
  show ?thesis
    unfolding int_literal_def Let_def tw dw by (rule core)
qed

lemma py_int_lower: "py_int (lower s) = py_int s"
proof -
  have dw: "dropWhile is_space (map lower_char s) = map lower_char (dropWhile is_space s)"
    by (simp add: dropWhile_map is_space_comp_lower)
  have core:
    "(case map lower_char d of [] \<Rightarrow> None
      | c # cs \<Rightarrow>
          if c = CHR ''+'' then int_literal cs
          else if c = CHR ''-'' then map_option uminus (int_literal cs)
          else int_literal (c # cs)) =
     (case d of [] \<Rightarrow> None
      | c # cs \<Rightarrow>
          if c = CHR ''+'' then int_literal cs
          else if c = CHR ''-'' then map_option uminus (int_literal cs)
          else int_literal (c # cs))" for d
  proof (cases d)
    case Nil
    then show ?thesis by simp
  next
    case (Cons c cs)
    have "int_literal (lower_char c # map lower_char cs) = int_literal (c # cs)"
      using int_literal_map_lower [of "c # cs"] by simp
    with Cons show ?thesis
      by (simp add: lower_char_plus lower_char_minus int_literal_map_lower)
  qed
  show ?thesis
    unfolding py_int_def lower_def dw by (rule core)
qed

subsection \<open>The branches of the prompt parser\<close>

lemma parse_prompt_cancel:
  "lower a = ''cancel'' \<Longrightarrow>
   parse_prompt lim P N a = \<lparr>limits = lim, num = 0, reason = None, cancel = True\<rparr>"
  by (simp add: parse_prompt_def PromptResult_default_def)

lemma parse_prompt_more:
  "lower a = ''more'' \<Longrightarrow>
   parse_prompt lim P N a =
     (if N < snd lim + P
      then \<lparr>limits = lim, num = 0, reason = Some ''this is the last page'', cancel = False\<rparr>
      else \<lparr>limits = (fst lim + P, snd lim + P), num = 0, reason = None, cancel = False\<rparr>)"
  by (simp add: parse_prompt_def PromptResult_default_def)

lemma parse_prompt_back:
  "lower a = ''back'' \<Longrightarrow>
   parse_prompt lim P N a =
     (if fst lim = 0
      then \<lparr>limits = lim, num = 0, reason = Some ''cannot go back'', cancel = False\<rparr>
      else \<lparr>limits = (fst lim - P, snd lim - P), num = 0, reason = None, cancel = False\<rparr>)"
  by (simp add: parse_prompt_def PromptResult_default_def)

lemma parse_prompt_number:
  "lower a \<noteq> ''cancel'' \<Longrightarrow> lower a \<noteq> ''more'' \<Longrightarrow> lower a \<noteq> ''back'' \<Longrightarrow>
   py_int (lower a) = Some n \<Longrightarrow>
   parse_prompt lim P N a =
     (if n < fst lim \<or> snd lim < n \<or> N < n
      then \<lparr>limits = lim, num = 0, reason = Some ''please specify the correct number'',
             cancel = False\<rparr>
      else \<lparr>limits = lim, num = n - 1, reason = None, cancel = False\<rparr>)"
  by (simp add: parse_prompt_def PromptResult_default_def)


text \<open>Whatever the answer, the window of the result is the old one, the next page, or,
  from a start other than 0, the page before.\<close>

lemma parse_prompt_limits:
  "limits (parse_prompt lim P N a) = lim
   \<or> limits (parse_prompt lim P N a) = (fst lim + P, snd lim + P)
   \<or> fst lim \<noteq> 0 \<and> limits (parse_prompt lim P N a) = (fst lim - P, snd lim - P)"
  by (simp add: parse_prompt_def PromptResult_default_def Let_def split: option.split)

text \<open>
  C5. Every answer is lower-cased and compared with \<open>cancel\<close>, \<open>more\<close> and \<open>back\<close>, in
  this order; any other answer is parsed as an integer, which is looked up in the window
  when the parse succeeds and reported as an unknown command when it fails. The integer
  parse is that of the answer as typed, and an answer and its lower-cased form have the
  same result.
\<close>

theorem parse_prompt_dispatch:
  "parse_prompt lim P N line =
     (if lower line = ''cancel'' then \<lparr>limits = lim, num = 0, reason = None, cancel = True\<rparr>
      else if lower line = ''more'' then
        (if N < snd lim + P
         then \<lparr>limits = lim, num = 0, reason = Some ''this is the last page'', cancel = False\<rparr>
         else \<lparr>limits = (fst lim + P, snd lim + P), num = 0, reason = None, cancel = False\<rparr>)
      else if lower line = ''back'' then
        (if fst lim = 0
         then \<lparr>limits = lim, num = 0, reason = Some ''cannot go back'', cancel = False\<rparr>
         else \<lparr>limits = (fst lim - P, snd lim - P), num = 0, reason = None, cancel = False\<rparr>)
      else
        (case py_int line of
           None \<Rightarrow>
             \<lparr>limits = lim, num = 0, reason = Some (''unkown command '' @ lower line),
              cancel = False\<rparr>
         | Some n \<Rightarrow>
             if n < fst lim \<or> snd lim < n \<or> N < n
             then \<lparr>limits = lim, num = 0, reason = Some ''please specify the correct number'',
                    cancel = False\<rparr>
             else \<lparr>limits = lim, num = n - 1, reason = None, cancel = False\<rparr>))
   \<and> parse_prompt lim P N (lower line) = parse_prompt lim P N line"
proof
  show "parse_prompt lim P N (lower line) = parse_prompt lim P N line"
    by (simp add: parse_prompt_def lower_idem)
next
  have "py_int (lower line) = py_int line"
    by (rule py_int_lower)
  then show "parse_prompt lim P N line =
     (if lower line = ''cancel'' then \<lparr>limits = lim, num = 0, reason = None, cancel = True\<rparr>
      else if lower line = ''more'' then
        (if N < snd lim + P
         then \<lparr>limits = lim, num = 0, reason = Some ''this is the last page'', cancel = False\<rparr>
         else \<lparr>limits = (fst lim + P, snd lim + P), num = 0, reason = None, cancel = False\<rparr>)
      else if lower line = ''back'' then
        (if fst lim = 0
         then \<lparr>limits = lim, num = 0, reason = Some ''cannot go back'', cancel = False\<rparr>
         else \<lparr>limits = (fst lim - P, snd lim - P), num = 0, reason = None, cancel = False\<rparr>)
      else
        (case py_int line of
           None \<Rightarrow>
             \<lparr>limits = lim, num = 0, reason = Some (''unkown command '' @ lower line),
              cancel = False\<rparr>
         | Some n \<Rightarrow>
             if n < fst lim \<or> snd lim < n \<or> N < n
             then \<lparr>limits = lim, num = 0, reason = Some ''please specify the correct number'',
                    cancel = False\<rparr>
             else \<lparr>limits = lim, num = n - 1, reason = None, cancel = False\<rparr>))"
    by (simp add: parse_prompt_def PromptResult_default_def split: option.split)
qed

theorem parse_prompt_dispatch_witness:
  "parse_prompt (0, 5) 5 12 ''CANCEL'' = \<lparr>limits = (0, 5), num = 0, reason = None, cancel = True\<rparr>
   \<and> parse_prompt (0, 5) 5 12 ''More'' = \<lparr>limits = (5, 10), num = 0, reason = None, cancel = False\<rparr>
   \<and> parse_prompt (5, 10) 5 12 ''bacK'' = \<lparr>limits = (0, 5), num = 0, reason = None, cancel = False\<rparr>
   \<and> parse_prompt (0, 5) 5 12 ''3'' = \<lparr>limits = (0, 5), num = 2, reason = None, cancel = False\<rparr>
   \<and> parse_prompt (0, 5) 5 12 ''Seven'' =
       \<lparr>limits = (0, 5), num = 0, reason = Some ''unkown command seven'', cancel = False\<rparr>"
proof -
  have l: "lower ''CANCEL'' = ''cancel''" "lower ''More'' = ''more''" "lower ''bacK'' = ''back''"
    "lower ''3'' = ''3''" "lower ''Seven'' = ''seven''"
    by code_simp+
  have p: "py_int ''3'' = Some 3" "py_int ''Seven'' = None"
    by code_simp+
  show ?thesis
    using parse_prompt_dispatch [of "(0, 5)" 5 12 "''CANCEL''"]
      parse_prompt_dispatch [of "(0, 5)" 5 12 "''More''"]
      parse_prompt_dispatch [of "(5, 10)" 5 12 "''bacK''"]
      parse_prompt_dispatch [of "(0, 5)" 5 12 "''3''"]
      parse_prompt_dispatch [of "(0, 5)" 5 12 "''Seven''"]
    by (simp add: l p)
qed

subsection \<open>Events and outcomes\<close>

lemma snd_emit: "snd (emit es r) = snd r"
  by (simp add: emit_def)

lemma open_link_last:
  "open_link links (- 1) =
     (if links = [] then ([], Raised IndexError)
      else ([Launch (link (last links)), Print ''[green]Opened[/green]''], Returned (Exit 0)))"
proof (cases "links = []")
  case True
  then show ?thesis
    by (simp add: open_link_def py_index_def)
next
  case False
  then have "nat (- 1 + int (length links)) = length links - 1"
    by (cases links) simp_all
  with False have "links ! nat (- 1 + int (length links)) = last links"
    by (simp add: last_conv_nth)
  with False show ?thesis
    by (simp add: open_link_def py_index_def)
qed

lemma open_link_not_awaiting: "snd (open_link links n) \<noteq> Awaiting w"
  by (simp add: open_link_def split: sum.split)

lemma extract_links_not_awaiting:
  "extract_links mode html acc = Inl r \<Longrightarrow> snd r \<noteq> Awaiting w"
  by (induction html arbitrary: acc) (auto split: option.splits sum.splits if_splits)

subsection \<open>Paging\<close>

text \<open>
  C1. The claim: \<open>more\<close> fails, with the window unchanged, exactly when the window's end
  has reached the number of results, and \<open>back\<close> exactly when its start is 0; otherwise
  each moves both bounds by the page size.

  The code does the \<open>back\<close> half (lemma \<open>parse_prompt_back\<close>). For \<open>more\<close> it tests
  \<open>end + page_size > N\<close> (lemma \<open>parse_prompt_more\<close>), so it refuses the last page
  whenever that page is not full. With 12 results in pages of 5 and the window on
  \<open>[5, 10)\<close>: the end 10 is below 12 and the display offers \<open>more\<close>, yet the answer
  \<open>more\<close> is refused as the last page, and no number of them leaves the window: results
  11 and 12 are never shown.
\<close>

theorem more_refused_with_results_left:
  "parse_prompt (5, 10) 5 12 ''more'' =
     \<lparr>limits = (5, 10), num = 0, reason = Some ''this is the last page'', cancel = False\<rparr>
   \<and> snd (limits (parse_prompt (5, 10) 5 12 ''more'')) < 12
   \<and> Print ''type `more` to see more results'' \<in> set (display_page (5, 10) (sample_links 12))
   \<and> snd (search_loop (0, 5) 5 (sample_links 12) [''more'', ''more'', ''more'']) = Awaiting (5, 10)"
  by code_simp

text \<open>
  C3. With 12 results and pages of 5, from the first window \<open>[0, 5)\<close>: \<open>more\<close> gives
  \<open>[5, 10)\<close>; a second \<open>more\<close> is refused with the message
  \<open>this is the last page\<close> and the window stays \<open>[5, 10)\<close>; \<open>back\<close> then gives
  \<open>[0, 5)\<close>. Stated for the parser and for the loop, over every list of 12 links.
\<close>

theorem twelve_results_pages_of_five:
  assumes "length links = 12"
  shows "parse_prompt (0, 5) 5 (int (length links)) ''more'' =
           \<lparr>limits = (5, 10), num = 0, reason = None, cancel = False\<rparr>
       \<and> parse_prompt (5, 10) 5 (int (length links)) ''more'' =
           \<lparr>limits = (5, 10), num = 0, reason = Some ''this is the last page'', cancel = False\<rparr>
       \<and> parse_prompt (5, 10) 5 (int (length links)) ''back'' =
           \<lparr>limits = (0, 5), num = 0, reason = None, cancel = False\<rparr>
       \<and> search_loop (0, 5) 5 links [''more''] =
           (display_page (0, 5) links @ display_page (5, 10) links, Awaiting (5, 10))
       \<and> search_loop (0, 5) 5 links [''more'', ''more''] =
           (display_page (0, 5) links @ display_page (5, 10) links
              @ [Print ''this is the last page''] @ display_page (5, 10) links,
            Awaiting (5, 10))
       \<and> search_loop (0, 5) 5 links [''more'', ''more'', ''back''] =
           (display_page (0, 5) links @ display_page (5, 10) links
              @ [Print ''this is the last page''] @ display_page (5, 10) links
              @ display_page (0, 5) links,
            Awaiting (0, 5))"
  using assms
  by (simp add: emit_def parse_prompt_more parse_prompt_back lower_more lower_back)

theorem twelve_results_pages_of_five_witness:
  "length (sample_links 12) = 12
   \<and> snd (search_loop (0, 5) 5 (sample_links 12) [''more'']) = Awaiting (5, 10)
   \<and> snd (search_loop (0, 5) 5 (sample_links 12) [''more'', ''more'']) = Awaiting (5, 10)
   \<and> Print ''this is the last page''
       \<in> set (fst (search_loop (0, 5) 5 (sample_links 12) [''more'', ''more'']))
   \<and> snd (search_loop (0, 5) 5 (sample_links 12) [''more'', ''more'', ''back'']) = Awaiting (0, 5)"
proof -
  have len: "length (sample_links 12) = 12"
    by (simp add: sample_links_def)
  from twelve_results_pages_of_five [OF len] len show ?thesis
    by (simp add: emit_def)
qed

text \<open>
  C8. When \<open>more\<close> succeeds on a window and \<open>back\<close>, applied to the window it returned,
  succeeds too, \<open>back\<close> returns the first window. (An answer succeeds when the result
  carries no reason.)
\<close>

theorem advance_then_retreat:
  assumes "reason (parse_prompt w P N ''more'') = None"
    and "reason (parse_prompt (limits (parse_prompt w P N ''more'')) P N' ''back'') = None"
  shows "limits (parse_prompt (limits (parse_prompt w P N ''more'')) P N' ''back'') = w"
  using assms
  by (simp add: parse_prompt_more parse_prompt_back lower_more lower_back split: if_splits)

theorem advance_then_retreat_witness:
  "reason (parse_prompt (0, 5) 5 12 ''more'') = None
   \<and> reason (parse_prompt (limits (parse_prompt (0, 5) 5 12 ''more'')) 5 12 ''back'') = None
   \<and> limits (parse_prompt (limits (parse_prompt (0, 5) 5 12 ''more'')) 5 12 ''back'') = (0, 5)"
proof -
  have a: "reason (parse_prompt (0, 5) 5 12 ''more'') = None"
    by code_simp
  have b: "reason (parse_prompt (limits (parse_prompt (0, 5) 5 12 ''more'')) 5 12 ''back'') = None"
    by code_simp
  from advance_then_retreat [OF a b] a b show ?thesis
    by simp
qed

text \<open>One round keeps a window aligned: its start a multiple of the page size and not
  negative, its end one page after its start.\<close>

lemma aligned_step:
  assumes "0 \<le> P" and "0 \<le> fst lim" and "P dvd fst lim" and "snd lim = fst lim + P"
  shows "0 \<le> fst (limits (parse_prompt lim P N a))
       \<and> P dvd fst (limits (parse_prompt lim P N a))
       \<and> snd (limits (parse_prompt lim P N a)) = fst (limits (parse_prompt lim P N a)) + P"
proof -
  have ge: "P \<le> fst lim" if "fst lim \<noteq> 0"
  proof -
    from that assms(2) have "0 < fst lim" by simp
    with assms(3) show ?thesis by (rule zdvd_imp_le)
  qed
  from parse_prompt_limits [of lim P N a] show ?thesis
    using assms ge by auto
qed

lemma search_loop_aligned:
  assumes "0 \<le> P"
  shows "0 \<le> fst lim \<Longrightarrow> P dvd fst lim \<Longrightarrow> snd lim = fst lim + P \<Longrightarrow>
         snd (search_loop lim P links answers) = Awaiting w \<Longrightarrow>
         0 \<le> fst w \<and> P dvd fst w \<and> snd w = fst w + P"
proof (induction answers arbitrary: lim)
  case Nil
  then show ?case by simp
next
  case (Cons a answers)
  let ?r = "parse_prompt lim P (int (length links)) a"
  have step: "0 \<le> fst (limits ?r) \<and> P dvd fst (limits ?r) \<and> snd (limits ?r) = fst (limits ?r) + P"
    using assms Cons.prems(1-3) by (rule aligned_step)
  show ?case
  proof (cases "cancel ?r")
    case True
    with Cons.prems(4) show ?thesis
      by (simp add: snd_emit)
  next
    case nc: False
    show ?thesis
    proof (cases "limits ?r = lim")
      case False
      with nc Cons.prems(4) have "snd (search_loop (limits ?r) P links answers) = Awaiting w"
        by (simp add: snd_emit)
      with step show ?thesis
        using Cons.IH [of "limits ?r"] by blast
    next
      case same: True
      show ?thesis
      proof (cases "reason ?r")
        case None
        with nc same Cons.prems(4) show ?thesis
          by (simp add: snd_emit open_link_not_awaiting)
      next
        case (Some m)
        with nc same Cons.prems(4) have "snd (search_loop lim P links answers) = Awaiting w"
          by (simp add: snd_emit)
        with Cons.prems(1-3) show ?thesis
          using Cons.IH [of lim] by blast
      qed
    qed
  qed
qed

lemma search_first_window:
  assumes "extract_links mode html [] = Inr links"
  shows "search mode P html [] =
        (Print ''[bold blue]Choose the topic[/bold blue]'' # display_page (0, P) links,
         Awaiting (0, P))"
  using assms by (simp add: search_def emit_def)

lemma search_window_aligned:
  assumes "1 \<le> P" and "snd (search mode P html answers) = Awaiting w"
  shows "(\<exists>k. 0 \<le> k \<and> fst w = k * P) \<and> 0 \<le> fst w \<and> snd w = fst w + P"
proof -
  from assms(1) have P: "0 \<le> P" "0 < P" by simp_all
  obtain links where l: "extract_links mode html [] = Inr links"
    using assms(2) extract_links_not_awaiting [of mode html "[]" _ w]
    by (cases "extract_links mode html []") (auto simp add: search_def snd_emit)
  with assms(2) have "snd (search_loop (0, P) P links answers) = Awaiting w"
    by (simp add: search_def snd_emit)
  with search_loop_aligned [OF P(1), of "(0, P)" links answers w]
  have w: "0 \<le> fst w" "P dvd fst w" "snd w = fst w + P"
    by simp_all
  from w(2) obtain k where k: "fst w = P * k" ..
  with w(1) P(2) have "0 \<le> k"
    by (simp add: zero_le_mult_iff)
  with k have "\<exists>k. 0 \<le> k \<and> fst w = k * P"
    by (auto simp add: mult.commute)
  with w show ?thesis
    by simp
qed

text \<open>
  C4. The command starts the loop on the window \<open>(0, page_size)\<close>. With a page size of at
  least 1, whatever the answers, every window at which the loop waits has a start that is
  a multiple \<open>k * page_size\<close> with \<open>0 \<le> k\<close>, hence not negative, and its end is one page
  further.
\<close>

theorem window_start_aligned:
  "(extract_links mode html [] = Inr links \<longrightarrow>
      search mode P html [] =
        (Print ''[bold blue]Choose the topic[/bold blue]'' # display_page (0, P) links,
         Awaiting (0, P)))
   \<and> (1 \<le> P \<and> snd (search mode P html answers) = Awaiting w \<longrightarrow>
        (\<exists>k. 0 \<le> k \<and> fst w = k * P) \<and> 0 \<le> fst w \<and> snd w = fst w + P)"
  using search_first_window [of mode html links P] search_window_aligned [of P mode html answers w]
  by blast

theorem window_start_aligned_witness:
  "extract_links both (map anchor_of (sample_links 12)) [] = Inr (sample_links 12)
   \<and> snd (search both 5 (map anchor_of (sample_links 12)) []) = Awaiting (0, 5)
   \<and> (1 :: int) \<le> 5
   \<and> snd (search both 5 (map anchor_of (sample_links 12)) [''more'', ''3'', ''x'']) = Awaiting (5, 10)
   \<and> (\<exists>k. 0 \<le> k \<and> fst (5 :: int, 10 :: int) = k * 5)"
proof -
  have e: "extract_links both (map anchor_of (sample_links 12)) [] = Inr (sample_links 12)"
    by code_simp
  have a: "snd (search both 5 (map anchor_of (sample_links 12)) [''more'', ''3'', ''x'']) = Awaiting (5, 10)"
    by code_simp
  from window_start_aligned [of both "map anchor_of (sample_links 12)" "sample_links 12" 5
      "[''more'', ''3'', ''x'']" "(5, 10)"] e a
  show ?thesis
    by simp
qed

subsection \<open>Selection\<close>

text \<open>
  C2. The claim: a number \<open>n\<close> is accepted exactly when \<open>start < n \<le> end\<close> and
  \<open>n \<le> N\<close>, and gives the index \<open>n - 1\<close>; every refusal carries the message
  \<open>please specify the correct number\<close> and leaves the window unchanged.

  The code tests \<open>n < start\<close> where the display needs \<open>n \<le> start\<close> (lemma
  \<open>parse_prompt_number\<close>), so it accepts \<open>n = start\<close> as well. On the window
  \<open>[5, 10)\<close> of 12 results the page lists the numbers 6 to 10; the answer \<open>5\<close> is
  accepted and the link of index 4, which is on the page before, is opened.
\<close>

theorem select_accepts_window_start:
  "parse_prompt (5, 10) 5 12 ''5'' = \<lparr>limits = (5, 10), num = 4, reason = None, cancel = False\<rparr>
   \<and> take 5 (display_page (5, 10) (sample_links 12)) =
       [Print ''6. topic 5 -> [green]Knowledge Base[/green]'',
        Print ''7. topic 6 -> [green]Documentation[/green]'',
        Print ''8. topic 7 -> [green]Knowledge Base[/green]'',
        Print ''9. topic 8 -> [green]Documentation[/green]'',
        Print ''10. topic 9 -> [green]Knowledge Base[/green]'']
   \<and> search_loop (5, 10) 5 (sample_links 12) [''5''] =
       (display_page (5, 10) (sample_links 12)
          @ [Launch ''/doc/4'', Print ''[green]Opened[/green]''],
        Returned (Exit 0))"
  by code_simp

text \<open>
  C10. On a window that starts at 0 (and ends at 0 or later, as every window of the data
  model does), with any number of results, the answer \<open>0\<close> is accepted: the result has no
  reason and the index \<open>-1\<close>. The loop ends and indexes the list of links at \<open>-1\<close>, which
  is outside \<open>[0, N)\<close>: Python opens the last link, and raises \<^verbatim>\<open>IndexError\<close>
  when the list is empty.
\<close>

theorem zero_selects_index_minus_one:
  assumes "0 \<le> e"
  shows "parse_prompt (0, e) P (int (length links)) ''0'' =
           \<lparr>limits = (0, e), num = - 1, reason = None, cancel = False\<rparr>
       \<and> search_loop (0, e) P links (''0'' # answers) =
           emit (display_page (0, e) links) (open_link links (- 1))
       \<and> open_link links (- 1) =
           (if links = [] then ([], Raised IndexError)
            else ([Launch (link (last links)), Print ''[green]Opened[/green]''],
                  Returned (Exit 0)))
       \<and> (- 1 :: int) \<notin> {0 ..< int (length links)}"
proof -
  have r: "parse_prompt (0, e) P (int (length links)) ''0'' =
      \<lparr>limits = (0, e), num = - 1, reason = None, cancel = False\<rparr>"
    using assms by (simp add: parse_prompt_number lower_zero py_int_zero)
  show ?thesis
    by (simp add: r open_link_last)
qed

theorem zero_selects_index_minus_one_witness:
  "(0 :: int) \<le> 5
   \<and> parse_prompt (0, 5) 5 0 ''0'' = \<lparr>limits = (0, 5), num = - 1, reason = None, cancel = False\<rparr>
   \<and> search_loop (0, 5) 5 [] [''0''] = (display_page (0, 5) [], Raised IndexError)
   \<and> search_loop (0, 5) 5 (sample_links 3) [''0''] =
       (display_page (0, 5) (sample_links 3)
          @ [Launch (link (last (sample_links 3))), Print ''[green]Opened[/green]''],
        Returned (Exit 0))"
proof -
  have h: "(0 :: int) \<le> 5"
    by simp
  have ne: "sample_links 3 \<noteq> []"
    by (simp add: sample_links_def)
  from zero_selects_index_minus_one [OF h, of 5 "[]" "[]"]
    zero_selects_index_minus_one [OF h, of 5 "sample_links 3" "[]"] ne
  show ?thesis
    by (simp add: emit_def)
qed

subsection \<open>Unknown commands\<close>




subsection \<open>The filter\<close>

lemma LinkType_of_value_value: "LinkType_of_value (LinkType_value t) = Inr t"
  by (cases t) (simp_all add: LinkType_of_value_def)

lemma name_match:
  "(LinkType_name t = LinkTypeOptions_name mode) =
     (mode = opt_doc \<and> t = doc \<or> mode = opt_knowledge_base \<and> t = knowledge_base)"
  by (cases t; cases mode) simp_all

lemma extract_links_anchor_of:
  "extract_links mode (map anchor_of rs) acc =
     Inr (acc @ filter (\<lambda>l. mode = both \<or> LinkType_name (link_type l) = LinkTypeOptions_name mode) rs)"
proof (induction rs arbitrary: acc)
  case Nil
  show ?case by simp
next
  case (Cons r rs)
  show ?case
    by (simp add: anchor_of_def LinkType_of_value_value Cons.IH [unfolded anchor_of_def])
qed

text \<open>
  C7. For every sequence of records, read from well-formed anchors: with the option
  \<open>both\<close> the loop keeps all of them, in order; with another option it keeps exactly the
  records whose type is the option's, in order, a subsequence of the input. The
  interaction loop runs on the list kept.
\<close>

theorem filter_stage:
  "extract_links both (map anchor_of rs) [] = Inr rs
   \<and> (mode \<noteq> both \<longrightarrow>
        extract_links mode (map anchor_of rs) [] =
          Inr (filter (\<lambda>l. mode = opt_doc \<and> link_type l = doc
                            \<or> mode = opt_knowledge_base \<and> link_type l = knowledge_base) rs))
   \<and> subseq (filter (\<lambda>l. mode = opt_doc \<and> link_type l = doc
                            \<or> mode = opt_knowledge_base \<and> link_type l = knowledge_base) rs) rs
   \<and> search mode P (map anchor_of rs) answers =
        emit [Print ''[bold blue]Choose the topic[/bold blue]'']
          (search_loop (0, P) P
             (filter (\<lambda>l. mode = both \<or> mode = opt_doc \<and> link_type l = doc
                            \<or> mode = opt_knowledge_base \<and> link_type l = knowledge_base) rs)
             answers)"
  by (simp add: extract_links_anchor_of name_match search_def)

theorem filter_stage_witness:
  "extract_links both (map anchor_of (sample_links 4)) [] = Inr (sample_links 4)
   \<and> opt_doc \<noteq> both
   \<and> extract_links opt_doc (map anchor_of (sample_links 4)) [] = Inr [sample_link 0, sample_link 2]
   \<and> opt_knowledge_base \<noteq> both
   \<and> extract_links opt_knowledge_base (map anchor_of (sample_links 4)) [] =
       Inr [sample_link 1, sample_link 3]"
proof -
  have d: "filter (\<lambda>l. link_type l = doc) (sample_links 4) = [sample_link 0, sample_link 2]"
    by code_simp
  have k: "filter (\<lambda>l. link_type l = knowledge_base) (sample_links 4) =
      [sample_link 1, sample_link 3]"
    by code_simp
  from filter_stage [of "sample_links 4" opt_doc] filter_stage [of "sample_links 4" opt_knowledge_base]
  show ?thesis
    by (simp add: d k)
qed

subsection \<open>Malformed records and exit codes\<close>

text \<open>An anchor without span, without \<^verbatim>\<open>href\<close> string or without type div ends the
  command at once: after the heading only the error line is printed, no page is displayed
  and no answer is read, and the function returns the object \<^verbatim>\<open>typer.Exit(1)\<close>.\<close>

lemma extract_links_malformed:
  assumes "span_text a = None \<or> href a = None \<or> type_div_text a = None"
  shows "extract_links mode (map anchor_of rs @ a # rest) acc =
           Inl ([Print ''[red bold]ERROR[/red bold]''], Returned (Exit 1))"
proof (induction rs arbitrary: acc)
  case Nil
  from assms show ?case
    by (auto split: option.splits)
next
  case (Cons r rs)
  show ?case
    by (simp add: anchor_of_def LinkType_of_value_value Cons.IH [unfolded anchor_of_def])
qed

lemma search_malformed:
  assumes "span_text a = None \<or> href a = None \<or> type_div_text a = None"
  shows "search mode P (map anchor_of rs @ a # rest) answers =
           ([Print ''[bold blue]Choose the topic[/bold blue]'',
             Print ''[red bold]ERROR[/red bold]''],
            Returned (Exit 1))"
  by (simp add: search_def emit_def extract_links_malformed [OF assms])

text \<open>After a selection or a cancel the function returns \<^verbatim>\<open>typer.Exit()\<close>, code 0.\<close>

lemma open_link_returned: "snd (open_link links n) = Returned e \<Longrightarrow> e = Exit 0"
  by (auto simp add: open_link_def split: sum.splits)

lemma search_loop_returned:
  "snd (search_loop lim P links answers) = Returned e \<Longrightarrow> e = Exit 0"
proof (induction answers arbitrary: lim)
  case Nil
  then show ?case by simp
next
  case (Cons a answers)
  then show ?case
    by (auto simp add: snd_emit Let_def open_link_returned split: if_splits option.splits)
qed

text \<open>
  C9. The claim: a malformed record ends the command with process exit code 1, before
  any page is shown; success and cancel end it with code 0.

  The code stops before any page is shown (lemma \<open>search_malformed\<close>), but it hands its
  exit object back with \<^verbatim>\<open>return typer.Exit(1)\<close> and does not raise it. typer takes
  the exit code from an \<^verbatim>\<open>Exit\<close> that is raised and drops what a command returns,
  so the process ends with code 0, as after a selection or a cancel. Below, the fourth
  anchor has no span.
\<close>

theorem malformed_record_exit_code:
  "search both 5
     (map anchor_of (sample_links 3)
        @ [\<lparr>span_text = None, href = Some ''/doc/3'', type_div_text = Some ''Documentation''\<rparr>])
     [''1''] =
     ([Print ''[bold blue]Choose the topic[/bold blue]'', Print ''[red bold]ERROR[/red bold]''],
      Returned (Exit 1))
   \<and> process_exit_code (snd (search both 5
       (map anchor_of (sample_links 3)
          @ [\<lparr>span_text = None, href = Some ''/doc/3'', type_div_text = Some ''Documentation''\<rparr>])
       [''1''])) = Some 0"
  by code_simp

end
